theory Spec2Isabelle
  imports Complex_Main "HOL-Library.Word" "HOL-Library.Multiset"
begin

unbundle bit_operations_syntax

section \<open>Errors\<close>

text \<open>
  Every \<^verbatim>\<open>throw\<close> of the modelled functions is a value of \<open>error\<close>. A read or write
  outside a C++ array has no defined behaviour; the model stops there with
  \<open>OutOfBounds\<close>, so that such an access is a result one can state theorems about.
\<close>

datatype error =
    InsufficientData  \<comment> \<open>\<^verbatim>\<open>"There is no enought valid data in the array!"\<close>\<close>
  | OutOfBounds       \<comment> \<open>an access outside the array\<close>
  | FetchTimeout      \<comment> \<open>\<^verbatim>\<open>"Failed to fetch depth frame within ..."\<close>\<close>
  | AssertionFailed   \<comment> \<open>an \<^verbatim>\<open>assert\<close> that does not hold\<close>

text \<open>
  \<^verbatim>\<open>float\<close> and \<^verbatim>\<open>double\<close> values are modelled by exact numbers (\<open>real\<close>, and \<open>rat\<close> in
  the table repair): the rounding of binary32 and binary64 arithmetic, infinities and
  NaN are not part of the model. The theorems below are about which branch the code
  takes, which stored value it selects and which entries it writes; at the concrete
  inputs they are evaluated at, the comparisons hold with a margin far above the
  rounding error.
\<close>

section \<open>Fill-factor table repair: \<^verbatim>\<open>on_chip_calib_manager::fill_missing_data\<close>\<close>

text \<open>
  The table is \<^verbatim>\<open>uint16_t data[256]\<close>; the callers pass \<^verbatim>\<open>fill_factor\<close>, an array of
  exactly 256 slots, and \<^verbatim>\<open>total_frames\<close> as \<^verbatim>\<open>size\<close>. The model takes the array as a
  list of 16-bit words; its length is the number of slots that exist. \<^verbatim>\<open>size\<close> is a
  C++ \<^verbatim>\<open>int\<close>, here an \<open>int\<close> written \<open>sz\<close>; indices never go below zero and are \<open>nat\<close>.
\<close>

type_synonym table = "16 word list"

text \<open>
  \<^verbatim>\<open>while (data[start++] == 0) ++counter;\<close>
  The loop has no bound: it reads \<^verbatim>\<open>data[start]\<close> and increments \<^verbatim>\<open>start\<close> whatever
  the test gives. It returns the pair \<open>(start, counter)\<close> on leaving.
\<close>

function scan_zeros :: "table \<Rightarrow> nat \<Rightarrow> nat \<Rightarrow> error + nat \<times> nat" where
  "scan_zeros data start counter =
     (if length data \<le> start then Inl OutOfBounds
      else if data ! start = 0 then scan_zeros data (Suc start) (Suc counter)
      else Inr (Suc start, counter))"
  by pat_completeness auto
termination
  by (relation "measure (\<lambda>(data, start, counter). length data - start)") auto

text \<open>\<^verbatim>\<open>for (int i = 0; i < counter; ++i) data[i] = data[counter];\<close>\<close>

definition fill_head :: "table \<Rightarrow> nat \<Rightarrow> table" where
  "fill_head data counter = fold (\<lambda>i d. d[i := d ! counter]) [0..<counter] data"

text \<open>
  \<^verbatim>\<open>static_cast<uint16_t>(x)\<close> of a \<^verbatim>\<open>float\<close>: the fractional part is discarded. C++
  leaves the conversion undefined when the truncated value is not in 0 to 65535; the
  model wraps it. Where the loop calls it the value lies in 1 to 65535 (lemma
  \<open>midpoint_nonzero\<close>).
\<close>

definition to_uint16 :: "rat \<Rightarrow> 16 word" where
  "to_uint16 x = word_of_int (if 0 \<le> x then \<lfloor>x\<rfloor> else \<lceil>x\<rceil>)"

text \<open>
  The body of \<^verbatim>\<open>if (start != 0 && end != 0)\<close>:
  \<^verbatim>\<open>
  tmp = static_cast<float>(data[end] - data[start - 1]);
  tmp /= end - start + 1;
  for (int j = start; j < end; ++j)
      data[j] = static_cast<uint16_t>(tmp * (j - start + 1) + data[start - 1] + 0.5f);
  \<close>
  The subtraction is on \<^verbatim>\<open>int\<close> (both operands are promoted), the rest on \<^verbatim>\<open>float\<close>.
  The model computes on rationals, that is without binary32 rounding; lemma
  \<open>fill_step_gap\<close> below shows that the loop only ever reaches this code with
  \<open>end = start + 1\<close>, where the divisor is 2 and every intermediate value is a multiple
  of one half below \<open>2 ^ 17\<close>, which binary32 represents exactly.
\<close>

definition interpolate :: "table \<Rightarrow> nat \<Rightarrow> nat \<Rightarrow> table" where
  "interpolate data start end_i =
     (let tmp = (of_int (uint (data ! end_i) - uint (data ! (start - 1))) :: rat)
                  / of_int (int end_i - int start + 1)
      in fold (\<lambda>j d. d[j := to_uint16 (tmp * of_int (int j - int start + 1)
                                        + of_int (uint (d ! (start - 1))) + 1 / 2)])
              [start..<end_i] data)"

text \<open>
  One iteration of \<^verbatim>\<open>for (int i = 0; i < size; ++i)\<close> on the state
  \<open>(data, start, end)\<close>:
  \<^verbatim>\<open>
  if (data[i] == 0) start = i;
  if (start != 0 && data[i] != 0) end = i;
  if (start != 0 && end != 0) { ...interpolate...; start = 0; end = 0; }
  \<close>
\<close>

definition fill_step :: "nat \<Rightarrow> table \<times> nat \<times> nat \<Rightarrow> table \<times> nat \<times> nat" where
  "fill_step i st =
     (case st of (d, start, end_i) \<Rightarrow>
        let start1 = (if d ! i = 0 then i else start);
            end1 = (if start1 \<noteq> 0 \<and> d ! i \<noteq> 0 then i else end_i)
        in if start1 \<noteq> 0 \<and> end1 \<noteq> 0 then (interpolate d start1 end1, 0, 0)
           else (d, start1, end1))"

function fill_loop :: "int \<Rightarrow> nat \<Rightarrow> table \<times> nat \<times> nat \<Rightarrow> error + table \<times> nat \<times> nat" where
  "fill_loop sz i st =
     (if int i < sz then
        (if i < length (fst st) then fill_loop sz (Suc i) (fill_step i st)
         else Inl OutOfBounds)
      else Inr st)"
  by pat_completeness auto
termination
  by (relation "measure (\<lambda>(sz, i, st). nat (sz - int i))") auto

text \<open>
  \<^verbatim>\<open>
  if (start != 0 && end == 0)
      for (int i = start; i < size; ++i) data[i] = data[start - 1];
  \<close>
\<close>

definition fill_tail :: "int \<Rightarrow> table \<times> nat \<times> nat \<Rightarrow> table" where
  "fill_tail sz st =
     (case st of (d, start, end_i) \<Rightarrow>
        if start \<noteq> 0 \<and> end_i = 0
        then fold (\<lambda>i d'. d'[i := d' ! (start - 1)]) [start..<nat sz] d
        else d)"

definition fill_missing_data :: "table \<Rightarrow> int \<Rightarrow> error + table" where
  "fill_missing_data data sz =
     (case scan_zeros data 0 0 of
        Inl err \<Rightarrow> Inl err
      | Inr (start, counter) \<Rightarrow>
          if int start + 2 > sz then Inl InsufficientData
          else (case fill_loop sz 0 (fill_head data counter, 0, 0) of
                  Inl err \<Rightarrow> Inl err
                | Inr st \<Rightarrow> Inr (fill_tail sz st)))"

text \<open>
  The invariant of the main loop, for the proofs: before iteration \<open>i\<close>, on the table
  \<open>d0\<close> the loop started from. \<^verbatim>\<open>end\<close> is 0; \<^verbatim>\<open>start\<close> is 0 or the index \<open>i - 1\<close> of
  a zero entry; entries from \<open>i\<close> on and entries that were not zero are untouched; and
  a zero entry below \<open>i\<close> is either the pending \<^verbatim>\<open>start\<close> or the first of two adjacent
  zero entries of \<open>d0\<close>.
\<close>

definition fill_inv :: "table \<Rightarrow> nat \<Rightarrow> table \<times> nat \<times> nat \<Rightarrow> bool" where
  "fill_inv d0 i st =
     (case st of (d, start, end_i) \<Rightarrow>
        end_i = 0 \<and> length d = length d0 \<and>
        (start \<noteq> 0 \<longrightarrow> Suc start = i \<and> d ! start = 0) \<and>
        (\<forall>k. i \<le> k \<and> k < length d0 \<longrightarrow> d ! k = d0 ! k) \<and>
        (\<forall>k < length d0. d0 ! k \<noteq> 0 \<longrightarrow> d ! k = d0 ! k) \<and>
        (\<forall>k < i. d ! k = 0 \<longrightarrow> k = start \<or> (Suc k < i \<and> d0 ! k = 0 \<and> d0 ! Suc k = 0)))"

section \<open>Health scores of the extended on-chip calibration\<close>

text \<open>
  The end of \<^verbatim>\<open>on_chip_calib_manager::calibrate\<close>, for \<^verbatim>\<open>RS2_CALIB_ACTION_ON_CHIP_OB_CALIB\<close>:
  \<^verbatim>\<open>
  int h_both = static_cast<int>(_health);
  int h_1 = (h_both & 0x00000FFF);
  int h_2 = (h_both & 0x00FFF000) >> 12;
  int sign = (h_both & 0x0F000000) >> 24;
  _health_1 = h_1 / 1000.0f;  if (sign & 1) _health_1 = -_health_1;
  _health_2 = h_2 / 1000.0f;  if (sign & 2) _health_2 = -_health_2;
  \<close>
  \<open>h_both\<close> is a 32-bit \<^verbatim>\<open>int\<close>; \<^verbatim>\<open>>>\<close> on it is the signed shift, and the fields are
  read as signed values. The result is the pair \<open>(_health_1, _health_2)\<close>.
\<close>

definition calibrate_health :: "32 word \<Rightarrow> real \<times> real" where
  "calibrate_health h_both =
     (let h_1 = h_both AND 0x00000FFF;
          h_2 = signed_drop_bit 12 (h_both AND 0x00FFF000);
          sign = signed_drop_bit 24 (h_both AND 0x0F000000);
          health_1 = real_of_int (sint h_1) / 1000;
          health_1 = (if sign AND 1 \<noteq> 0 then - health_1 else health_1);
          health_2 = real_of_int (sint h_2) / 1000;
          health_2 = (if sign AND 2 \<noteq> 0 then - health_2 else health_2)
      in (health_1, health_2))"

section \<open>Stream selection in \<^verbatim>\<open>on_chip_calib_manager::start_viewer\<close>\<close>

text \<open>
  The part of \<^verbatim>\<open>_sub->ui\<close> that the selection writes: the indices into
  \<^verbatim>\<open>_sub->res_values\<close> and \<^verbatim>\<open>_sub->shared_fps_values\<close>.
  \<^verbatim>\<open>_sub->is_selected_combination_supported()\<close> belongs to the viewer's subdevice model;
  it is a parameter \<open>supported\<close> of the functions below, a predicate on the selection.
\<close>

record ui_selection =
  selected_res_id :: nat
  selected_shared_fps_id :: nat

text \<open>
  \<^verbatim>\<open>
  for (int i = 0; i < _sub->shared_fps_values.size(); i++)
      if (_sub->shared_fps_values[i] == fps) _sub->ui.selected_shared_fps_id = i;
  \<close>
\<close>

definition select_fps :: "int list \<Rightarrow> int \<Rightarrow> ui_selection \<Rightarrow> ui_selection" where
  "select_fps shared_fps_values fps ui =
     fold (\<lambda>i u. if shared_fps_values ! i = fps then u\<lparr>selected_shared_fps_id := i\<rparr> else u)
          [0..<length shared_fps_values] ui"

text \<open>
  \<^verbatim>\<open>
  for (int i = 0; i < _sub->res_values.size(); i++) {
      auto kvp = _sub->res_values[i];
      if (kvp.first == w && kvp.second == h) _sub->ui.selected_res_id = i;
  }
  \<close>
  The same loop runs again with 640 and 480 for the fallback.
\<close>

definition select_res :: "(int \<times> int) list \<Rightarrow> int \<Rightarrow> int \<Rightarrow> ui_selection \<Rightarrow> ui_selection" where
  "select_res res_values w h ui =
     fold (\<lambda>i u. if fst (res_values ! i) = w \<and> snd (res_values ! i) = h
                  then u\<lparr>selected_res_id := i\<rparr> else u)
          [0..<length res_values] ui"

text \<open>
  \<^verbatim>\<open>
  for (int i = 0; i < _sub->shared_fps_values.size(); i++) {
      _sub->ui.selected_shared_fps_id = i;
      if (_sub->is_selected_combination_supported()) break;
  }
  \<close>
\<close>

function sweep_fps :: "(ui_selection \<Rightarrow> bool) \<Rightarrow> nat \<Rightarrow> nat \<Rightarrow> ui_selection \<Rightarrow> ui_selection" where
  "sweep_fps supported n i ui =
     (if i < n then
        (let ui' = ui\<lparr>selected_shared_fps_id := i\<rparr>
         in if supported ui' then ui' else sweep_fps supported n (Suc i) ui')
      else ui)"
  by pat_completeness auto
termination
  by (relation "measure (\<lambda>(supported, n, i, ui). n - i)") auto

declare sweep_fps.simps [simp del]

text \<open>
  Lines 571 to 606 of the source: select the FPS, select the resolution, and when the
  combination is not supported sweep the FPS values, then fall back to 640 by 480.
\<close>

definition select_stream ::
  "(ui_selection \<Rightarrow> bool) \<Rightarrow> int list \<Rightarrow> (int \<times> int) list \<Rightarrow> int \<Rightarrow> int \<Rightarrow> int \<Rightarrow>
   ui_selection \<Rightarrow> ui_selection" where
  "select_stream supported shared_fps_values res_values w h fps ui =
     (let ui1 = select_fps shared_fps_values fps ui;
          ui2 = select_res res_values w h ui1
      in if \<not> supported ui2 then
           (let ui3 = sweep_fps supported (length shared_fps_values) 0 ui2
            in if \<not> supported ui3 then select_res res_values 640 480 ui3 else ui3)
         else ui2)"

section \<open>Depth metrics: \<^verbatim>\<open>on_chip_calib_manager::get_depth_metrics\<close>\<close>

text \<open>
  \<^verbatim>\<open>depth_quality::analyze_depth_image\<close> belongs to the depth-quality tool. For one frame it
  either returns without invoking the callback \<^verbatim>\<open>on_frame\<close>, or invokes it once. What the
  callback then appends is the input of the model: the fill rate it computes from the
  points and the region of interest, and, when \<^verbatim>\<open>plane_fit\<close> is set, the RMS percentage
  \<^verbatim>\<open>rms_error_val_per\<close> it computes from the distances to the plane.
\<close>

datatype analysis = NoCallback | Callback real "real option"

text \<open>
  The state the callback captures by reference is the pair \<open>(fill_rates, rmses)\<close>:
  \<^verbatim>\<open>
  fill_rates.push_back(fill_rate);
  if (!plane_fit) return;
  ...
  rmses.push_back(rms_error_val_per);
  \<close>
\<close>

definition on_frame :: "analysis \<Rightarrow> real list \<times> real list \<Rightarrow> real list \<times> real list" where
  "on_frame a acc =
     (case a of
        NoCallback \<Rightarrow> acc
      | Callback fill_rate rms \<Rightarrow>
          (fst acc @ [fill_rate], (case rms of None \<Rightarrow> snd acc | Some r \<Rightarrow> snd acc @ [r])))"

text \<open>
  \<^verbatim>\<open>fetch_depth_frame\<close> returns the latest frame of the stream or throws after its
  timeout. The model numbers the calls: \<open>fetch k\<close> is the outcome of call \<open>k\<close>, an error or
  what the analysis of that frame gives. \<open>analyze_frames fetch k n\<close> is the loop
  \<^verbatim>\<open>for (int i = 0; i < 31; i++) { f = fetch_depth_frame(invoke); analyze_depth_image(...); }\<close>
  with \<open>n\<close> iterations left, starting at call \<open>k\<close>.
\<close>

fun analyze_frames ::
  "(nat \<Rightarrow> error + analysis) \<Rightarrow> nat \<Rightarrow> nat \<Rightarrow> real list \<times> real list \<Rightarrow>
   error + real list \<times> real list" where
  "analyze_frames fetch k 0 acc = Inr acc"
| "analyze_frames fetch k (Suc n) acc =
     (case fetch k of
        Inl e \<Rightarrow> Inl e
      | Inr a \<Rightarrow> analyze_frames fetch (Suc k) n (on_frame a acc))"

text \<open>
  \<^verbatim>\<open>
  auto rmses_sum_sqr = std::inner_product(rmses.begin(), rmses.end(), rmses.begin(), 0.);
  new_rms_std = static_cast<float>(std::sqrt(rmses_sum_sqr / rmses.size()));
  \<close>
\<close>

definition rms_of :: "real list \<Rightarrow> real" where
  "rms_of rmses = sqrt (sum_list (map (\<lambda>r. r * r) rmses) / real (length rmses))"

text \<open>
  The \<^verbatim>\<open>do ... while\<close> loop. \<^verbatim>\<open>rmses.clear()\<close> opens every bundle, so \<open>rmses\<close> starts
  empty in each call; \<open>fill_rates\<close> is never cleared. \<open>cnt\<close> is the variable \<^verbatim>\<open>count\<close>:
  \<^verbatim>\<open>
  do {
      rms_std = new_rms_std;
      rmses.clear();
      for (int i = 0; i < 31; i++) { ... }
      new_rms_std = ...;
  } while ((new_rms_std < rms_std * 0.8f && new_rms_std > 10.f) && count++ < 10);
  \<close>
\<close>

function sample_bundles ::
  "(nat \<Rightarrow> error + analysis) \<Rightarrow> nat \<Rightarrow> real list \<Rightarrow> real \<Rightarrow> nat \<Rightarrow>
   error + real list \<times> real list" where
  "sample_bundles fetch k fill_rates new_rms_std cnt =
     (let rms_std = new_rms_std in
      case analyze_frames fetch k 31 (fill_rates, []) of
        Inl e \<Rightarrow> Inl e
      | Inr (fill_rates', rmses) \<Rightarrow>
          (let new_rms_std' = rms_of rmses in
           if (new_rms_std' < rms_std * 0.8 \<and> new_rms_std' > 10) \<and> cnt < 10
           then sample_bundles fetch (k + 31) fill_rates' new_rms_std' (Suc cnt)
           else Inr (fill_rates', rmses)))"
  by pat_completeness auto
termination
  by (relation "measure (\<lambda>(fetch, k, fill_rates, new_rms_std, cnt). 10 - cnt)") auto

declare sample_bundles.simps [simp del]

text \<open>
  \<^verbatim>\<open>
  std::sort(v.begin(), v.end());
  if (v.empty()) median = 0; else median = v[v.size() / 2];
  \<close>
\<close>

definition median :: "real list \<Rightarrow> real" where
  "median xs = (if xs = [] then 0 else sort xs ! (length xs div 2))"

text \<open>
  The first call of \<^verbatim>\<open>fetch_depth_frame\<close> only supplies the intrinsics and the region of
  interest; the frames analysed are those of the calls from 1 on.
\<close>

definition get_depth_metrics :: "(nat \<Rightarrow> error + analysis) \<Rightarrow> error + real \<times> real" where
  "get_depth_metrics fetch =
     (case fetch 0 of
        Inl e \<Rightarrow> Inl e
      | Inr f \<Rightarrow>
          (case sample_bundles fetch 1 [] 1000 0 of
             Inl e \<Rightarrow> Inl e
           | Inr (fill_rates, rmses) \<Rightarrow> Inr (median fill_rates, median rmses)))"

text \<open>
  For the statements: the fill rates and the RMS values that a sequence of analysed
  frames contributes.
\<close>

fun fill_rates_of :: "analysis list \<Rightarrow> real list" where
  "fill_rates_of [] = []"
| "fill_rates_of (NoCallback # as) = fill_rates_of as"
| "fill_rates_of (Callback f r # as) = f # fill_rates_of as"

fun rmses_of :: "analysis list \<Rightarrow> real list" where
  "rmses_of [] = []"
| "rmses_of (Callback f (Some r) # as) = r # rmses_of as"
| "rmses_of (a # as) = rmses_of as"

section \<open>Workspace: \<^verbatim>\<open>start_viewer\<close>, \<^verbatim>\<open>stop_viewer\<close>, \<^verbatim>\<open>restore_workspace\<close>\<close>

datatype calib_action =
    RS2_CALIB_ACTION_ON_CHIP_OB_CALIB
  | RS2_CALIB_ACTION_ON_CHIP_CALIB
  | RS2_CALIB_ACTION_ON_CHIP_FL_CALIB
  | RS2_CALIB_ACTION_TARE_CALIB
  | RS2_CALIB_ACTION_TARE_GROUND_TRUTH
  | RS2_CALIB_ACTION_FL_CALIB
  | RS2_CALIB_ACTION_UVMAPPING_CALIB
  | RS2_CALIB_ACTION_UVMAPPING

text \<open>
  The fields of the manager, the viewer and the sensor that \<^verbatim>\<open>restore_workspace\<close> and the
  first lines of \<^verbatim>\<open>start_viewer\<close> read or write. \<open>saved_ui\<close> is the pointer \<^verbatim>\<open>_ui\<close> (\<open>None\<close>
  when it is null) and \<open>ui\<close> is \<^verbatim>\<open>_sub->ui\<close>; likewise for the colour sensor, where
  \<open>has_sub_color\<close> says that \<^verbatim>\<open>_sub_color\<close> is not null. \<open>emitter_enabled\<close> and
  \<open>thermal_compensation\<close> are the sensor's options \<^verbatim>\<open>RS2_OPTION_EMITTER_ENABLED\<close> and
  \<^verbatim>\<open>RS2_OPTION_THERMAL_COMPENSATION\<close>, \<open>None\<close> when the sensor does not support the
  option. \<^verbatim>\<open>_sub\<close> is not null (both functions dereference it without a test), and
  calls to the device and the viewer are taken to succeed; \<^verbatim>\<open>start_viewer\<close>,
  \<^verbatim>\<open>stop_viewer\<close> and \<^verbatim>\<open>restore_workspace\<close> each catch and drop every exception.
\<close>

record workspace =
  action :: calib_action
  restored :: bool
  in_3d_view :: bool
  is_3d_view :: bool
  synchronized :: bool
  synchronization_enable :: bool
  post_processing :: bool
  post_processing_enabled :: bool
  was_streaming :: bool
  streaming :: bool
  ui :: ui_selection
  saved_ui :: "ui_selection option"
  has_sub_color :: bool
  ui_color :: ui_selection
  saved_ui_color :: "ui_selection option"
  emitter_enabled :: "real option"
  laser_status_prev :: real
  thermal_compensation :: "real option"
  thermal_loop_prev :: real

record subdevice =
  shared_fps_values :: "int list"
  res_values :: "(int \<times> int) list"
  is_selected_combination_supported :: "ui_selection \<Rightarrow> bool"

text \<open>
  The first statements of \<^verbatim>\<open>start_viewer\<close>:
  \<^verbatim>\<open>
  if (_sub->s->supports(RS2_OPTION_EMITTER_ENABLED)) {
      laser_status_prev = _sub->s->get_option(RS2_OPTION_EMITTER_ENABLED);
      _sub->s->set_option(RS2_OPTION_EMITTER_ENABLED, 0.0f);
  }
  if (_sub->s->supports(RS2_OPTION_THERMAL_COMPENSATION)) {
      thermal_loop_prev = _sub->s->get_option(RS2_OPTION_THERMAL_COMPENSATION);
      _sub->s->set_option(RS2_OPTION_THERMAL_COMPENSATION, 0.f);
  }
  \<close>
\<close>

definition override_options :: "workspace \<Rightarrow> workspace" where
  "override_options s =
     (let s1 = (case emitter_enabled s of
                  None \<Rightarrow> s
                | Some v \<Rightarrow> s\<lparr>laser_status_prev := v, emitter_enabled := Some 0\<rparr>)
      in (case thermal_compensation s1 of
            None \<Rightarrow> s1
          | Some v \<Rightarrow> s1\<lparr>thermal_loop_prev := v, thermal_compensation := Some 0\<rparr>))"

text \<open>
  \<^verbatim>\<open>start_viewer\<close>: the options, the stream selection on \<^verbatim>\<open>_sub\<close>, the selection on
  \<^verbatim>\<open>_sub_color\<close> and the start of the stream. \<open>sub\<close> and \<open>sub_color\<close> hold the value lists
  of \<^verbatim>\<open>_sub\<close> and \<^verbatim>\<open>_sub_color\<close>. For \<^verbatim>\<open>RS2_CALIB_ACTION_UVMAPPING_CALIB\<close> lines 611 to 629
  select FPS and resolution on the colour sensor as well, with no sweep and no fallback:
  \<^verbatim>\<open>
  if (action == RS2_CALIB_ACTION_UVMAPPING_CALIB) {
      _sub_color->stream_enabled[_uid_color] = true;
      for (...) if (_sub_color->shared_fps_values[i] == fps) _sub_color->ui.selected_shared_fps_id = i;
      for (...) if (kvp.first == w && kvp.second == h) _sub_color->ui.selected_res_id = i;
      profiles_color = _sub_color->get_selected_profiles();
  }
  \<close>
  The code dereferences \<^verbatim>\<open>_sub_color\<close> there without a test. The choice of the stream
  formats by action (lines 412 to 569) writes \<^verbatim>\<open>_uid\<close>, \<^verbatim>\<open>_uid2\<close>, \<^verbatim>\<open>_uid_color\<close>,
  \<^verbatim>\<open>stream_enabled\<close> and \<^verbatim>\<open>selected_format_id\<close>, and in some branches sets the two options
  to 0 once more; none of these fields is part of \<open>workspace\<close>.
\<close>

definition start_viewer ::
  "subdevice \<Rightarrow> subdevice \<Rightarrow> int \<Rightarrow> int \<Rightarrow> int \<Rightarrow> workspace \<Rightarrow> workspace" where
  "start_viewer sub sub_color w h fps s =
     (let s1 = override_options s;
          s2 = s1\<lparr>ui := select_stream (is_selected_combination_supported sub)
                            (shared_fps_values sub) (res_values sub) w h fps (ui s1)\<rparr>;
          s3 = (if action s2 = RS2_CALIB_ACTION_UVMAPPING_CALIB
                then s2\<lparr>ui_color := select_res (res_values sub_color) w h
                                        (select_fps (shared_fps_values sub_color) fps
                                           (ui_color s2))\<rparr>
                else s2)
      in s3\<lparr>streaming := True\<rparr>)"

definition stop_viewer :: "workspace \<Rightarrow> workspace" where
  "stop_viewer s = s\<lparr>streaming := False\<rparr>"

text \<open>
  \<^verbatim>\<open>
  if (_restored) return;
  _viewer.is_3d_view = _in_3d_view;
  _viewer.synchronization_enable = _synchronized;
  stop_viewer(invoke);
  if (_sub.get() && _ui.get()) { _sub->ui = *_ui; _ui.reset(); }
  if (action == RS2_CALIB_ACTION_UVMAPPING_CALIB && _sub_color.get() && _ui_color.get())
      { _sub_color->ui = *_ui_color; _ui_color.reset(); }
  _sub->post_processing_enabled = _post_processing;
  if (_was_streaming) start_viewer(0, 0, 0, invoke);
  _restored = true;
  \<close>
\<close>

definition restore_workspace :: "subdevice \<Rightarrow> subdevice \<Rightarrow> workspace \<Rightarrow> workspace" where
  "restore_workspace sub sub_color s =
     (if restored s then s
      else
        (let s1 = s\<lparr>is_3d_view := in_3d_view s, synchronization_enable := synchronized s\<rparr>;
             s2 = stop_viewer s1;
             s3 = (case saved_ui s2 of
                     None \<Rightarrow> s2
                   | Some u \<Rightarrow> s2\<lparr>ui := u, saved_ui := None\<rparr>);
             s4 = (if action s3 = RS2_CALIB_ACTION_UVMAPPING_CALIB \<and> has_sub_color s3
                   then (case saved_ui_color s3 of
                           None \<Rightarrow> s3
                         | Some u \<Rightarrow> s3\<lparr>ui_color := u, saved_ui_color := None\<rparr>)
                   else s3);
             s5 = s4\<lparr>post_processing_enabled := post_processing s4\<rparr>;
             s6 = (if was_streaming s5 then start_viewer sub sub_color 0 0 0 s5 else s5)
         in s6\<lparr>restored := True\<rparr>))"

text \<open>
  A session of \<^verbatim>\<open>RS2_CALIB_ACTION_ON_CHIP_CALIB\<close> as \<^verbatim>\<open>process_flow\<close> leaves it before its
  first \<^verbatim>\<open>try_start_viewer\<close>: the stream was running, emitter and thermal compensation
  are on.
\<close>

definition session0 :: workspace where
  "session0 = \<lparr>action = RS2_CALIB_ACTION_ON_CHIP_CALIB, restored = False,
     in_3d_view = False, is_3d_view = True, synchronized = True, synchronization_enable = False,
     post_processing = True, post_processing_enabled = False,
     was_streaming = True, streaming = False,
     ui = \<lparr>selected_res_id = 0, selected_shared_fps_id = 0\<rparr>, saved_ui = None,
     has_sub_color = False,
     ui_color = \<lparr>selected_res_id = 0, selected_shared_fps_id = 0\<rparr>, saved_ui_color = None,
     emitter_enabled = Some 1, laser_status_prev = 0,
     thermal_compensation = Some 1, thermal_loop_prev = 0\<rparr>"

text \<open>The value lists of a sensor; \<open>sub0\<close> stands for \<^verbatim>\<open>_sub\<close> and for \<^verbatim>\<open>_sub_color\<close>.\<close>

definition sub0 :: subdevice where
  "sub0 = \<lparr>shared_fps_values = [90], res_values = [(256, 144)],
            is_selected_combination_supported = (\<lambda>u. True)\<rparr>"

section \<open>Focal-length table patch in \<^verbatim>\<open>on_chip_calib_manager::calibrate_fl\<close>\<close>

type_synonym byte = "8 word"

text \<open>
  The calibration table is the byte vector \<^verbatim>\<open>_new_calib\<close>, which the code reads through a
  pointer to \<^verbatim>\<open>librealsense::ds::coefficients_table\<close>. That struct, \<^verbatim>\<open>table_header\<close> and
  \<^verbatim>\<open>helpers::calc_crc32\<close> are declared elsewhere in the library; the model takes them as
  the parameter \<open>table_layout\<close>: \<open>header_size\<close> is \<^verbatim>\<open>sizeof(table_header)\<close>, the three offsets
  are those of \<^verbatim>\<open>header.crc32\<close>, \<^verbatim>\<open>intrinsic_right.x.x\<close> and \<^verbatim>\<open>intrinsic_right.x.y\<close> from the
  start of the table, \<open>float_of_bytes\<close> and \<open>bytes_of_float\<close> are the value of the four
  bytes of a \<^verbatim>\<open>float\<close> and the four bytes of a value, and \<open>bytes_of_uint32\<close> the four bytes
  of a \<^verbatim>\<open>uint32_t\<close>.
\<close>

record table_layout =
  header_size :: nat
  crc32_offset :: nat
  x_x_offset :: nat
  x_y_offset :: nat
  float_of_bytes :: "byte list \<Rightarrow> real"
  bytes_of_float :: "real \<Rightarrow> byte list"
  bytes_of_uint32 :: "32 word \<Rightarrow> byte list"
  calc_crc32 :: "byte list \<Rightarrow> 32 word"

definition read_bytes :: "byte list \<Rightarrow> nat \<Rightarrow> nat \<Rightarrow> byte list" where
  "read_bytes t off n = take n (drop off t)"

definition write_bytes :: "byte list \<Rightarrow> nat \<Rightarrow> byte list \<Rightarrow> byte list" where
  "write_bytes t off bs = take off t @ bs @ drop (off + length bs) t"

text \<open>
  \<^verbatim>\<open>field *= ratio_to_apply\<close> on the \<^verbatim>\<open>float\<close> stored at offset \<open>off\<close>; the four bytes must
  lie inside the vector.
\<close>

definition mul_float_field :: "table_layout \<Rightarrow> nat \<Rightarrow> real \<Rightarrow> byte list \<Rightarrow> error + byte list" where
  "mul_float_field L off r t =
     (if off + 4 \<le> length t
      then Inr (write_bytes t off (bytes_of_float L (float_of_bytes L (read_bytes t off 4) * r)))
      else Inl OutOfBounds)"

text \<open>
  Lines 1704 to 1713, from \<^verbatim>\<open>corrected_ratio\<close> and \<^verbatim>\<open>_old_calib\<close> to the new \<^verbatim>\<open>_new_calib\<close>:
  \<^verbatim>\<open>
  float ratio_to_apply = corrected_ratio / 100.0f + 1.0f;
  _new_calib = _old_calib;
  auto table = (librealsense::ds::coefficients_table*)_new_calib.data();
  table->intrinsic_right.x.x *= ratio_to_apply;
  table->intrinsic_right.x.y *= ratio_to_apply;
  auto actual_data = _new_calib.data() + sizeof(librealsense::ds::table_header);
  auto actual_data_size = _new_calib.size() - sizeof(librealsense::ds::table_header);
  auto crc = helpers::calc_crc32(actual_data, actual_data_size);
  table->header.crc32 = crc;
  \<close>
  A vector shorter than the header makes \<^verbatim>\<open>actual_data_size\<close> wrap around and the
  checksum read past the vector.
\<close>

definition calibrate_fl_patch :: "table_layout \<Rightarrow> real \<Rightarrow> byte list \<Rightarrow> error + byte list" where
  "calibrate_fl_patch L corrected_ratio old_calib =
     (let ratio_to_apply = corrected_ratio / 100 + 1;
          new_calib = old_calib
      in case mul_float_field L (x_x_offset L) ratio_to_apply new_calib of
           Inl e \<Rightarrow> Inl e
         | Inr t1 \<Rightarrow>
             (case mul_float_field L (x_y_offset L) ratio_to_apply t1 of
                Inl e \<Rightarrow> Inl e
              | Inr t2 \<Rightarrow>
                  if length t2 < header_size L then Inl OutOfBounds
                  else
                    (let crc = calc_crc32 L (drop (header_size L) t2)
                     in if crc32_offset L + 4 \<le> length t2
                        then Inr (write_bytes t2 (crc32_offset L) (bytes_of_uint32 L crc))
                        else Inl OutOfBounds)))"

text \<open>
  A layout and a table to evaluate the patch at: the header of 16 bytes with the
  checksum in its last four, the two fields at offsets 52 and 56, both holding 1.0
  (bytes \<open>00 00 80 3F\<close>), a codec that knows the values 1 and 0, little-endian
  \<^verbatim>\<open>uint32_t\<close>, and the sum of the bytes as a stand-in for the checksum function.
\<close>

definition layout0 :: table_layout where
  "layout0 = \<lparr>header_size = 16, crc32_offset = 12, x_x_offset = 52, x_y_offset = 56,
     float_of_bytes = (\<lambda>bs. if bs = [0, 0, 128, 63] then 1 else 0),
     bytes_of_float = (\<lambda>r. if r = 1 then [0, 0, 128, 63] else [0, 0, 0, 0]),
     bytes_of_uint32 = (\<lambda>w. [ucast w, ucast (drop_bit 8 w), ucast (drop_bit 16 w),
                              ucast (drop_bit 24 w)]),
     calc_crc32 = (\<lambda>bs. fold (\<lambda>b acc. acc + ucast b) bs 0)\<rparr>"

definition table0 :: "byte list" where
  "table0 = replicate 52 0 @ [0, 0, 128, 63] @ [0, 0, 128, 63] @ replicate 4 0"

section \<open>\<^verbatim>\<open>on_chip_calib_manager::apply_calib\<close>\<close>

text \<open>
  \<^verbatim>\<open>
  auto calib_table = use_new ? _new_calib : _old_calib;
  if (calib_table.size()) calib_dev.set_calibration_table(calib_table);
  \<close>
  The device is seen through the calls it receives: \<open>set_calibration_table_calls\<close> lists
  the tables passed to \<^verbatim>\<open>set_calibration_table\<close>, oldest first.
\<close>

record calib_state =
  old_calib :: "byte list"
  new_calib :: "byte list"
  set_calibration_table_calls :: "byte list list"

definition apply_calib :: "bool \<Rightarrow> calib_state \<Rightarrow> calib_state" where
  "apply_calib use_new s =
     (let calib_table = (if use_new then new_calib s else old_calib s)
      in if length calib_table \<noteq> 0
         then s\<lparr>set_calibration_table_calls := set_calibration_table_calls s @ [calib_table]\<rparr>
         else s)"

section \<open>UV-mapping solver: \<^verbatim>\<open>uvmapping_calib::calibrate\<close>\<close>

datatype rs2_distortion =
    RS2_DISTORTION_NONE
  | RS2_DISTORTION_MODIFIED_BROWN_CONRADY
  | RS2_DISTORTION_INVERSE_BROWN_CONRADY
  | RS2_DISTORTION_FTHETA
  | RS2_DISTORTION_BROWN_CONRADY
  | RS2_DISTORTION_KANNALA_BRANDT4

text \<open>The fields of \<^verbatim>\<open>rs2_intrinsics\<close> that the solver reads from \<^verbatim>\<open>_color_intrin\<close>.\<close>

record rs2_intrinsics =
  ppx :: real
  ppy :: real
  fx :: real
  fy :: real
  model :: rs2_distortion

text \<open>
  Entry \<open>i\<close> of the five vectors \<^verbatim>\<open>_left_x\<close>, \<^verbatim>\<open>_left_y\<close>, \<^verbatim>\<open>_left_z\<close>, \<^verbatim>\<open>_color_x\<close>,
  \<^verbatim>\<open>_color_y\<close>, which the constructor fills together.
\<close>

record uv_point =
  left_x :: real
  left_y :: real
  left_z :: real
  color_x :: real
  color_y :: real

type_synonym float3 = "real \<times> real \<times> real"

text \<open>
  \<^verbatim>\<open>rs2_deproject_pixel_to_point\<close> with the left intrinsics and
  \<^verbatim>\<open>rs2_transform_point_to_point\<close> with the extrinsics come from the library's
  \<^verbatim>\<open>rsutil.h\<close>; they are the parameters \<open>deproject\<close> and \<open>transform\<close>.
  \<^verbatim>\<open>
  rs2_deproject_pixel_to_point(point_left[i], &_left_intrin, pixel_left[i], _left_z[i]);
  rs2_transform_point_to_point(point_color[i], &_extrin, point_left[i]);
  pixel_color_norm[i][0] = point_color[i][0] / point_color[i][2];
  pixel_color_norm[i][1] = point_color[i][1] / point_color[i][2];
  \<close>
\<close>

definition pixel_color_norm ::
  "(real \<times> real \<Rightarrow> real \<Rightarrow> float3) \<Rightarrow> (float3 \<Rightarrow> float3) \<Rightarrow> uv_point \<Rightarrow> real \<times> real" where
  "pixel_color_norm deproject transform p =
     (let point_left = deproject (left_x p, left_y p) (left_z p);
          point_color = transform point_left
      in (fst point_color / snd (snd point_color), fst (snd point_color) / snd (snd point_color)))"

text \<open>A loop \<^verbatim>\<open>for (int i = 0; i < 4; ++i) acc += f(i);\<close> from \<open>acc = 0\<close>.\<close>

definition sum4 :: "(nat \<Rightarrow> real) \<Rightarrow> real" where
  "sum4 f = fold (\<lambda>i acc. acc + f i) [0..<4] 0"

text \<open>
  The mean reprojection error for given parameters. \<^verbatim>\<open>err_before\<close> is computed with
  the colour intrinsics (through \<^verbatim>\<open>pixel_color\<close>), \<^verbatim>\<open>err_after\<close> with the fitted
  parameters:
  \<^verbatim>\<open>
  tmpx = pixel_color_norm[i][0] * fx + ppx - _color_x[i];  tmpx *= tmpx;
  tmpy = pixel_color_norm[i][1] * fy + ppy - _color_y[i];  tmpy *= tmpy;
  err_after += sqrtf(tmpx + tmpy);
  ...
  err_after /= 4.0f;
  \<close>
\<close>

definition reprojection_error ::
  "(real \<times> real) list \<Rightarrow> uv_point list \<Rightarrow> real \<Rightarrow> real \<Rightarrow> real \<Rightarrow> real \<Rightarrow> real" where
  "reprojection_error pnorm pts fx' ppx' fy' ppy' =
     sum4 (\<lambda>i. let tmpx = fst (pnorm ! i) * fx' + ppx' - color_x (pts ! i);
                    tmpy = snd (pnorm ! i) * fy' + ppy' - color_y (pts ! i)
                in sqrt (tmpx * tmpx + tmpy * tmpy)) / 4"

text \<open>
  The solve of one axis; the source writes it out twice, for \<open>x\<close> and for \<open>y\<close>:
  \<^verbatim>\<open>
  double d_x = 4 * x_2 - x * x;
  if (d_x > 0.01) {
      d_x = 1 / d_x;
      fx = static_cast<float>(d_x * (4 * c_xc - x * c_x));
      ppx = static_cast<float>(d_x * (x_2 * c_x - x * c_xc));
  }
  \<close>
  \<open>x i\<close> is the normalised coordinate of point \<open>i\<close>, \<open>c i\<close> the observed colour pixel
  coordinate, and \<open>prior\<close> the pair \<open>(fx, ppx)\<close> the caller passed in.
\<close>

definition axis_denominator :: "(nat \<Rightarrow> real) \<Rightarrow> real" where
  "axis_denominator x = 4 * sum4 (\<lambda>i. x i * x i) - sum4 x * sum4 x"

definition fit_axis :: "(nat \<Rightarrow> real) \<Rightarrow> (nat \<Rightarrow> real) \<Rightarrow> real \<times> real \<Rightarrow> real \<times> real" where
  "fit_axis x c prior =
     (let d = axis_denominator x in
      if d > 0.01 then
        (let d' = 1 / d
         in (d' * (4 * sum4 (\<lambda>i. c i * x i) - sum4 x * sum4 c),
             d' * (sum4 (\<lambda>i. x i * x i) * sum4 c - sum4 x * sum4 (\<lambda>i. c i * x i))))
      else prior)"

text \<open>
  \<open>calibrate\<close> takes the threshold \<^verbatim>\<open>_max_change\<close> (declared in the header) as
  \<open>max_change\<close> and the values of the reference parameters \<^verbatim>\<open>ppx\<close>, \<^verbatim>\<open>ppy\<close>, \<^verbatim>\<open>fx\<close>, \<^verbatim>\<open>fy\<close>
  on entry as \<open>prior\<close>. It returns the \<^verbatim>\<open>bool\<close> and the values of the six reference
  parameters on exit: \<open>(accept, err_before, err_after, ppx, ppy, fx, fy)\<close>. The loops read
  entries 0 to 3 of the vectors, which hold \<^verbatim>\<open>pt_num\<close> entries each.
\<close>

definition calibrate ::
  "real \<Rightarrow> (real \<times> real \<Rightarrow> real \<Rightarrow> float3) \<Rightarrow> (float3 \<Rightarrow> float3) \<Rightarrow> rs2_intrinsics \<Rightarrow>
   uv_point list \<Rightarrow> real \<times> real \<times> real \<times> real \<Rightarrow>
   error + bool \<times> real \<times> real \<times> real \<times> real \<times> real \<times> real" where
  "calibrate max_change deproject transform color_intrin pts prior =
     (case prior of (ppx0, ppy0, fx0, fy0) \<Rightarrow>
        if length pts < 4 then Inl OutOfBounds
        else if model color_intrin \<noteq> RS2_DISTORTION_INVERSE_BROWN_CONRADY then Inl AssertionFailed
        else
          (let pnorm = map (pixel_color_norm deproject transform) pts;
               err_before = reprojection_error pnorm pts (fx color_intrin) (ppx color_intrin)
                              (fy color_intrin) (ppy color_intrin);
               fit_x = fit_axis (\<lambda>i. fst (pnorm ! i)) (\<lambda>i. color_x (pts ! i)) (fx0, ppx0);
               fit_y = fit_axis (\<lambda>i. snd (pnorm ! i)) (\<lambda>i. color_y (pts ! i)) (fy0, ppy0);
               fx1 = fst fit_x; ppx1 = snd fit_x; fy1 = fst fit_y; ppy1 = snd fit_y;
               err_after = reprojection_error pnorm pts fx1 ppx1 fy1 ppy1
           in Inr (\<bar>ppx color_intrin - ppx1\<bar> < max_change \<and> \<bar>ppy color_intrin - ppy1\<bar> < max_change \<and>
                   \<bar>fx color_intrin - fx1\<bar> < max_change \<and> \<bar>fy color_intrin - fy1\<bar> < max_change,
                   err_before, err_after, ppx1, ppy1, fx1, fy1)))"

section \<open>Theorems\<close>

subsection \<open>Repair of a table with no valid data\<close>

lemma scan_zeros_all_zero:
  "\<forall>k. start \<le> k \<and> k < length data \<longrightarrow> data ! k = 0 \<Longrightarrow>
   scan_zeros data start counter = Inl OutOfBounds"
proof (induction data start counter rule: scan_zeros.induct)
  case (1 data start counter)
  show ?case
  proof (cases "length data \<le> start")
    case True
    then show ?thesis by simp
  next
    case False
    then have z: "data ! start = 0" using "1.prems" by simp
    have "scan_zeros data (Suc start) (Suc counter) = Inl OutOfBounds"
      using False z "1.prems" by (intro "1.IH") auto
    with False z show ?thesis by simp
  qed
qed

text \<open>
  C2. On a table whose 256 entries are all zero, the scan of the leading zeros reads
  \<^verbatim>\<open>data[256]\<close>, one slot past the array, before the test that raises the error is
  reached: the model stops with \<open>OutOfBounds\<close>, not with \<open>InsufficientData\<close>.
\<close>

theorem fill_missing_data_all_zero_out_of_bounds:
  "fill_missing_data (replicate 256 0) 256 = Inl OutOfBounds"
  by (simp add: fill_missing_data_def scan_zeros_all_zero)

subsection \<open>Repair of a table with valid data\<close>







text \<open>
  In every state the loop reaches, the interpolation runs on a gap of one entry:
  \<open>end = start + 1\<close>, so the divisor \<^verbatim>\<open>end - start + 1\<close> is 2.
\<close>

lemma fill_step_gap:
  assumes "fill_inv d0 i (d, start, end_i)" and "start \<noteq> 0" and "d ! i \<noteq> 0"
  shows "i = Suc start \<and> fill_step i (d, start, end_i) = (interpolate d start (Suc start), 0, 0)"
proof -
  from assms(1,2) have "Suc start = i" by (simp add: fill_inv_def)
  with assms(2,3) show ?thesis by (auto simp: fill_step_def)
qed









text \<open>
  A gap of two or more zero entries is not repaired. \<^verbatim>\<open>if (data[i] == 0) start = i;\<close>
  overwrites \<^verbatim>\<open>start\<close> at every zero entry, so the interpolation, written for gaps of
  any length, only ever sees the last zero of a gap: of the two zero entries below the
  first stays zero, and the second becomes \<open>(100 - 0) / 2 + 0 + 0.5\<close>, cut to 50.
\<close>

lemma fill_missing_data_gap:
  "fill_missing_data ([100, 0, 0] @ replicate 253 100) 256
     = Inr ([100, 0, 50] @ replicate 253 100)"
  by code_simp

subsection \<open>Health scores\<close>

lemma mask_0xFFF: "(0xFFF :: 32 word) = mask 12"
  by (simp add: mask_eq_exp_minus_1)

lemma mask_0xFFF000: "(0x00FFF000 :: 32 word) = push_bit 12 (mask 12)"
  by (simp add: mask_eq_exp_minus_1 push_bit_eq_mult)

lemma mask_0xF000000: "(0x0F000000 :: 32 word) = push_bit 24 (mask 4)"
  by (simp add: mask_eq_exp_minus_1 push_bit_eq_mult)

lemma sint_low12: "sint ((x :: 32 word) AND mask 12) = int (unat (x AND mask 12))"
proof -
  have "\<not> bit (x AND mask 12) 31" by (simp add: bit_simps)
  then have "sint (x AND mask 12) = take_bit 31 (uint (x AND mask 12))"
    by (simp add: sint_uint signed_take_bit_eq_if_positive bit_uint_iff)
  moreover have "uint (x AND mask 12) < 2 ^ 12"
    by (metis and_mask_lt_2p)
  then have "take_bit 31 (uint (x AND mask 12)) = uint (x AND mask 12)"
    by (intro take_bit_int_eq_self) auto
  ultimately show ?thesis by simp
qed

lemma field_2: "signed_drop_bit 12 ((h :: 32 word) AND push_bit 12 (mask 12)) = drop_bit 12 h AND mask 12"
  by (rule bit_word_eqI) (auto simp: bit_simps)

lemma sign_1: "(signed_drop_bit 24 ((h :: 32 word) AND push_bit 24 (mask 4)) AND 1 \<noteq> 0) = bit h 24"
proof -
  have "(signed_drop_bit 24 (h AND push_bit 24 (mask 4)) AND 1 \<noteq> 0)
      = bit (signed_drop_bit 24 (h AND push_bit 24 (mask 4))) 0"
    using bit_iff_and_push_bit_not_eq_0 [of "signed_drop_bit 24 (h AND push_bit 24 (mask 4))" 0]
    by simp
  then show ?thesis by (simp add: bit_simps)
qed

lemma sign_2: "(signed_drop_bit 24 ((h :: 32 word) AND push_bit 24 (mask 4)) AND 2 \<noteq> 0) = bit h 25"
proof -
  have "(signed_drop_bit 24 (h AND push_bit 24 (mask 4)) AND 2 \<noteq> 0)
      = bit (signed_drop_bit 24 (h AND push_bit 24 (mask 4))) 1"
    using bit_iff_and_push_bit_not_eq_0 [of "signed_drop_bit 24 (h AND push_bit 24 (mask 4))" 1]
    by simp
  then show ?thesis by (simp add: bit_simps)
qed

text \<open>
  C9. For \<^verbatim>\<open>RS2_CALIB_ACTION_ON_CHIP_OB_CALIB\<close> the first health score is the low 12 bits of
  the return code \<open>h\<close> divided by 1000, negated when bit 24 of \<open>h\<close> is set, and the second
  is bits 12 to 23 of \<open>h\<close> divided by 1000, negated when bit 25 of \<open>h\<close> is set.
\<close>

theorem calibrate_health_fields:
  "calibrate_health h =
     ((if bit h 24 then - (real (unat (h AND 0xFFF)) / 1000) else real (unat (h AND 0xFFF)) / 1000),
      (if bit h 25 then - (real (unat (drop_bit 12 h AND 0xFFF)) / 1000)
       else real (unat (drop_bit 12 h AND 0xFFF)) / 1000))"
  unfolding calibrate_health_def Let_def mask_0xFFF mask_0xFFF000 mask_0xF000000
    field_2 sign_1 sign_2 sint_low12
  by simp

subsection \<open>Stream selection\<close>

lemma select_res_fps: "selected_shared_fps_id (select_res rs w h sel) = selected_shared_fps_id sel"
proof -
  have "selected_shared_fps_id (fold (\<lambda>i u. if fst (rs ! i) = w \<and> snd (rs ! i) = h
                  then u\<lparr>selected_res_id := i\<rparr> else u) xs sel) = selected_shared_fps_id sel" for xs
    by (induction xs arbitrary: sel) auto
  then show ?thesis by (simp add: select_res_def)
qed

lemma select_res_upto:
  fixes sel :: ui_selection
  shows "selected_res_id (fold (\<lambda>i u. if fst (rs ! i) = w \<and> snd (rs ! i) = h
                  then u\<lparr>selected_res_id := i\<rparr> else u) [0..<n] sel) =
   (if \<exists>i<n. rs ! i = (w, h) then (GREATEST i. i < n \<and> rs ! i = (w, h)) else selected_res_id sel)"
proof -
  define f where "f = (\<lambda>i (u :: ui_selection). if fst (rs ! i) = w \<and> snd (rs ! i) = h
                  then u\<lparr>selected_res_id := i\<rparr> else u)"
  have hit: "selected_res_id (f i u) = i" if "rs ! i = (w, h)" for i u
    using that by (simp add: f_def)
  have miss: "f i u = u" if "rs ! i \<noteq> (w, h)" for i u
    using that by (cases "rs ! i") (auto simp: f_def)
  have "selected_res_id (fold f [0..<n] sel) =
     (if \<exists>i<n. rs ! i = (w, h) then (GREATEST i. i < n \<and> rs ! i = (w, h)) else selected_res_id sel)"
  proof (induction n)
    case 0
    then show ?case by simp
  next
    case (Suc n)
    have step: "fold f [0..<Suc n] sel = f n (fold f [0..<n] sel)" by simp
    show ?case
    proof (cases "rs ! n = (w, h)")
      case True
      have "(GREATEST i. i < Suc n \<and> rs ! i = (w, h)) = n"
        using True by (intro Greatest_equality) auto
      moreover have "\<exists>i<Suc n. rs ! i = (w, h)" using True by blast
      ultimately show ?thesis unfolding step using hit [OF True] by simp
    next
      case False
      then have eq: "(i < Suc n \<and> rs ! i = (w, h)) = (i < n \<and> rs ! i = (w, h))" for i
        by (auto simp: less_Suc_eq)
      show ?thesis unfolding step miss [OF False] Suc by (simp only: eq)
    qed
  qed
  then show ?thesis by (simp only: f_def)
qed

lemma select_res_id:
  "selected_res_id (select_res rs w h sel) =
   (if \<exists>i<length rs. rs ! i = (w, h) then (GREATEST i. i < length rs \<and> rs ! i = (w, h))
    else selected_res_id sel)"
  by (simp add: select_res_def select_res_upto)

lemma sweep_fps_res: "selected_res_id (sweep_fps supported n i sel) = selected_res_id sel"
proof (induction supported n i sel rule: sweep_fps.induct)
  case (1 supported n i sel)
  then show ?case by (subst sweep_fps.simps) (simp add: Let_def)
qed

lemma sweep_fps_found:
  "i \<le> k \<Longrightarrow> k < n \<Longrightarrow> supported (sel\<lparr>selected_shared_fps_id := k\<rparr>) \<Longrightarrow>
   \<forall>j. i \<le> j \<and> j < k \<longrightarrow> \<not> supported (sel\<lparr>selected_shared_fps_id := j\<rparr>) \<Longrightarrow>
   sweep_fps supported n i sel = sel\<lparr>selected_shared_fps_id := k\<rparr>"
proof (induction supported n i sel rule: sweep_fps.induct)
  case (1 supported n i sel)
  show ?case
  proof (cases "i = k")
    case True
    with "1.prems" show ?thesis by (subst sweep_fps.simps) simp
  next
    case False
    with "1.prems" have ik: "i < k" "i < n" and ns: "\<not> supported (sel\<lparr>selected_shared_fps_id := i\<rparr>)"
      by auto
    have "sweep_fps supported n (Suc i) (sel\<lparr>selected_shared_fps_id := i\<rparr>)
            = sel\<lparr>selected_shared_fps_id := i\<rparr>\<lparr>selected_shared_fps_id := k\<rparr>"
      using ik ns "1.prems" by (intro "1.IH") auto
    with ik ns show ?thesis by (subst sweep_fps.simps) simp
  qed
qed

lemma sweep_fps_none:
  "\<forall>j. i \<le> j \<and> j < n \<longrightarrow> \<not> supported (sel\<lparr>selected_shared_fps_id := j\<rparr>) \<Longrightarrow> i < n \<Longrightarrow>
   sweep_fps supported n i sel = sel\<lparr>selected_shared_fps_id := n - 1\<rparr>"
proof (induction supported n i sel rule: sweep_fps.induct)
  case (1 supported n i sel)
  have ns: "\<not> supported (sel\<lparr>selected_shared_fps_id := i\<rparr>)" using "1.prems" by auto
  show ?case
  proof (cases "Suc i < n")
    case True
    have "sweep_fps supported n (Suc i) (sel\<lparr>selected_shared_fps_id := i\<rparr>)
            = sel\<lparr>selected_shared_fps_id := i\<rparr>\<lparr>selected_shared_fps_id := n - 1\<rparr>"
      using True ns "1.prems" by (intro "1.IH") auto
    with ns "1.prems" show ?thesis by (subst sweep_fps.simps) simp
  next
    case False
    with "1.prems" have "n - 1 = i" by simp
    with False ns "1.prems" show ?thesis
      by (subst sweep_fps.simps, subst sweep_fps.simps) simp
  qed
qed

lemma select_res_listed:
  fixes sel :: ui_selection
  shows "((w, h) \<in> set rs \<longrightarrow> rs ! selected_res_id (select_res rs w h sel) = (w, h)
            \<and> selected_res_id (select_res rs w h sel) < length rs) \<and>
         ((w, h) \<notin> set rs \<longrightarrow> select_res rs w h sel = sel)"
proof (intro conjI impI)
  assume "(w, h) \<in> set rs"
  then obtain i where i: "i < length rs \<and> rs ! i = (w, h)" by (auto simp: in_set_conv_nth)
  then have ex: "\<exists>i<length rs. rs ! i = (w, h)" by blast
  have "(GREATEST i. i < length rs \<and> rs ! i = (w, h)) < length rs \<and>
        rs ! (GREATEST i. i < length rs \<and> rs ! i = (w, h)) = (w, h)"
    using i by (rule GreatestI_nat [where b = "length rs"]) simp
  with ex show "rs ! selected_res_id (select_res rs w h sel) = (w, h)"
    and "selected_res_id (select_res rs w h sel) < length rs"
    by (simp_all add: select_res_id)
next
  assume n: "(w, h) \<notin> set rs"
  define f where "f = (\<lambda>i (u :: ui_selection). if fst (rs ! i) = w \<and> snd (rs ! i) = h
                  then u\<lparr>selected_res_id := i\<rparr> else u)"
  have miss: "f i u = u" if "i < length rs" for i u
  proof -
    have "rs ! i \<in> set rs" using that by simp
    with n have "rs ! i \<noteq> (w, h)" by metis
    then show ?thesis by (cases "rs ! i") (auto simp: f_def)
  qed
  have "fold f [0..<k] sel = sel" if "k \<le> length rs" for k
    using that by (induction k) (simp_all add: miss)
  then show "select_res rs w h sel = sel" by (simp add: select_res_def f_def)
qed

text \<open>
  C8. Let \<open>sel2\<close> be the selection after the requested FPS and the requested resolution
  have been looked up, and let the combination \<open>sel2\<close> be unsupported. The resolution
  selected in \<open>sel2\<close> is the requested one when the sensor lists it. If some FPS index
  is supported with the resolution of \<open>sel2\<close>, the result keeps that resolution and
  selects the first such index. If none is, the result selects an entry 640 by 480 of
  the resolutions when there is one, and keeps the resolution of \<open>sel2\<close> otherwise.
\<close>

theorem select_stream_fallback:
  fixes sel :: ui_selection
  assumes sel2: "sel2 = select_res resolutions w h (select_fps fps_values fps sel)"
    and unsupported: "\<not> supported sel2"
    and r: "r = select_stream supported fps_values resolutions w h fps sel"
  shows "((w, h) \<in> set resolutions \<longrightarrow> resolutions ! selected_res_id sel2 = (w, h)) \<and>
         ((\<exists>k<length fps_values. supported (sel2\<lparr>selected_shared_fps_id := k\<rparr>)) \<longrightarrow>
            supported r \<and> selected_res_id r = selected_res_id sel2 \<and>
            selected_shared_fps_id r < length fps_values \<and>
            (\<forall>j. j < selected_shared_fps_id r \<longrightarrow>
               \<not> supported (sel2\<lparr>selected_shared_fps_id := j\<rparr>))) \<and>
         ((\<forall>k<length fps_values. \<not> supported (sel2\<lparr>selected_shared_fps_id := k\<rparr>)) \<longrightarrow>
            ((640, 480) \<in> set resolutions \<longrightarrow> resolutions ! selected_res_id r = (640, 480)) \<and>
            ((640, 480) \<notin> set resolutions \<longrightarrow> selected_res_id r = selected_res_id sel2))"
proof -
  let ?n = "length fps_values"
  define sel3 where "sel3 = sweep_fps supported ?n 0 sel2"
  have sel: "r = (if \<not> supported sel3 then select_res resolutions 640 480 sel3 else sel3)"
    using unsupported by (simp add: r select_stream_def Let_def sel3_def flip: sel2)
  show ?thesis
proof (intro conjI impI)
  assume "(w, h) \<in> set resolutions"
  then show "resolutions ! selected_res_id sel2 = (w, h)"
    unfolding sel2 using select_res_listed [of w h resolutions] by blast
next
  let ?P = "\<lambda>k. k < ?n \<and> supported (sel2\<lparr>selected_shared_fps_id := k\<rparr>)"
  assume "\<exists>k<?n. supported (sel2\<lparr>selected_shared_fps_id := k\<rparr>)"
  then have ex: "\<exists>k. ?P k" by blast
  define k where "k = (LEAST k. ?P k)"
  have k: "?P k" unfolding k_def using ex by (rule LeastI_ex)
  have least: "\<not> supported (sel2\<lparr>selected_shared_fps_id := j\<rparr>)" if "j < k" for j
  proof
    assume "supported (sel2\<lparr>selected_shared_fps_id := j\<rparr>)"
    with that k have "?P j" by simp
    then have "k \<le> j" unfolding k_def by (rule Least_le)
    with that show False by simp
  qed
  have "sel3 = sel2\<lparr>selected_shared_fps_id := k\<rparr>"
    unfolding sel3_def using k least by (intro sweep_fps_found) auto
  with k have res: "r = sel2\<lparr>selected_shared_fps_id := k\<rparr>"
    by (simp add: sel)
  show "supported r" "selected_res_id r = selected_res_id sel2"
    "selected_shared_fps_id r < ?n"
    "\<forall>j. j < selected_shared_fps_id r \<longrightarrow> \<not> supported (sel2\<lparr>selected_shared_fps_id := j\<rparr>)"
    using k least by (simp_all add: res)
next
  assume none: "\<forall>k<?n. \<not> supported (sel2\<lparr>selected_shared_fps_id := k\<rparr>)"
  have sel3: "selected_res_id sel3 = selected_res_id sel2" "\<not> supported sel3"
  proof -
    show "selected_res_id sel3 = selected_res_id sel2" by (simp add: sel3_def sweep_fps_res)
    show "\<not> supported sel3"
    proof (cases "0 < ?n")
      case True
      then have "sel3 = sel2\<lparr>selected_shared_fps_id := ?n - 1\<rparr>"
        unfolding sel3_def using none by (intro sweep_fps_none) auto
      with none True show ?thesis by simp
    next
      case False
      then show ?thesis using unsupported by (simp add: sel3_def sweep_fps.simps)
    qed
  qed
  have res: "r = select_res resolutions 640 480 sel3"
    using sel3 by (simp add: sel)
  show "resolutions ! selected_res_id r = (640, 480)" if "(640, 480) \<in> set resolutions"
    unfolding res using that select_res_listed [of 640 480 resolutions sel3] by blast
  show "selected_res_id r = selected_res_id sel2" if "(640, 480) \<notin> set resolutions"
    unfolding res using that select_res_listed [of 640 480 resolutions sel3] sel3 by simp
qed
qed

theorem select_stream_fallback_witness:
  "selected_res_id (select_stream (\<lambda>u. selected_res_id u = 0 \<and> selected_shared_fps_id u = 1)
      [6, 15, 30] [(1280, 720), (848, 480), (640, 480)] 1280 720 30
      \<lparr>selected_res_id = 1, selected_shared_fps_id = 0\<rparr>) = 0 \<and>
   selected_shared_fps_id (select_stream (\<lambda>u. selected_res_id u = 0 \<and> selected_shared_fps_id u = 1)
      [6, 15, 30] [(1280, 720), (848, 480), (640, 480)] 1280 720 30
      \<lparr>selected_res_id = 1, selected_shared_fps_id = 0\<rparr>) = 1 \<and>
   ([(1280, 720), (848, 480), (640, 480)] :: (int \<times> int) list) !
     selected_res_id (select_stream (\<lambda>u. False)
      [6, 15, 30] [(1280, 720), (848, 480), (640, 480)] 1280 720 30
      \<lparr>selected_res_id = 1, selected_shared_fps_id = 0\<rparr>) = (640, 480)"
proof -
  let ?sel = "\<lparr>selected_res_id = 1, selected_shared_fps_id = 0\<rparr>"
  let ?fs = "[6, 15, 30 :: int]"
  let ?rs = "[(1280, 720), (848, 480), (640, 480 :: int)] :: (int \<times> int) list"
  let ?sel2 = "\<lparr>selected_res_id = 0, selected_shared_fps_id = 2\<rparr>"
  let ?S = "\<lambda>u :: ui_selection. selected_res_id u = 0 \<and> selected_shared_fps_id u = 1"
  have sel2: "?sel2 = select_res ?rs 1280 720 (select_fps ?fs 30 ?sel)"
    by code_simp
  have a: "\<not> ?S ?sel2" by simp
  have ex: "\<exists>k<length ?fs. ?S (?sel2\<lparr>selected_shared_fps_id := k\<rparr>)"
    by (rule exI [of _ 1]) simp
  have b: "\<not> (\<lambda>u :: ui_selection. False) ?sel2" by simp
  have c: "(640, 480) \<in> set ?rs" by simp
  from select_stream_fallback [where supported = ?S, OF sel2 a refl] ex
    select_stream_fallback [where supported = "\<lambda>u. False", OF sel2 b refl] c
  show ?thesis by simp
qed

subsection \<open>Depth metrics\<close>

lemma fill_rates_of_append [simp]: "fill_rates_of (xs @ ys) = fill_rates_of xs @ fill_rates_of ys"
  by (induction xs rule: fill_rates_of.induct) auto

lemma rmses_of_append [simp]: "rmses_of (xs @ ys) = rmses_of xs @ rmses_of ys"
  by (induction xs rule: rmses_of.induct) auto

lemma on_frame_eq: "on_frame a acc = (fst acc @ fill_rates_of [a], snd acc @ rmses_of [a])"
  by (cases a; cases acc) (auto simp: on_frame_def split: option.splits)

lemma analyze_frames_Inr:
  "analyze_frames fetch k n acc = Inr acc' \<Longrightarrow>
   \<exists>as. length as = n \<and> map fetch [k..<k + n] = map Inr as \<and>
        acc' = (fst acc @ fill_rates_of as, snd acc @ rmses_of as)"
proof (induction n arbitrary: k acc)
  case 0
  then show ?case by simp
next
  case (Suc n)
  from Suc.prems obtain a where a: "fetch k = Inr a"
    and rest: "analyze_frames fetch (Suc k) n (on_frame a acc) = Inr acc'"
    by (auto split: sum.splits)
  from Suc.IH [OF rest] obtain as where as: "length as = n"
    "map fetch [Suc k..<Suc k + n] = map Inr as"
    "acc' = (fst (on_frame a acc) @ fill_rates_of as, snd (on_frame a acc) @ rmses_of as)"
    by blast
  have "[k..<k + Suc n] = k # [Suc k..<Suc k + n]" by (simp add: upt_conv_Cons)
  then have "map fetch [k..<k + Suc n] = map Inr (a # as)"
    using a as(2) by (simp only: list.map)
  moreover have "acc' = (fst acc @ fill_rates_of (a # as), snd acc @ rmses_of (a # as))"
    using as(3) fill_rates_of_append [of "[a]" as] rmses_of_append [of "[a]" as]
    by (simp add: on_frame_eq del: fill_rates_of_append rmses_of_append)
  ultimately show ?case using as(1) by (intro exI [of _ "a # as"]) simp
qed

lemma sample_bundles_unfold:
  "sample_bundles fetch k fs nrs cnt =
     (case analyze_frames fetch k 31 (fs, []) of
        Inl e \<Rightarrow> Inl e
      | Inr (fs1, rs1) \<Rightarrow>
          if (rms_of rs1 < nrs * 0.8 \<and> rms_of rs1 > 10) \<and> cnt < 10
          then sample_bundles fetch (k + 31) fs1 (rms_of rs1) (Suc cnt)
          else Inr (fs1, rs1))"
  by (subst sample_bundles.simps) (simp only: Let_def)

lemma sample_bundles_step:
  "analyze_frames fetch k 31 (fs, []) = Inr (fs1, rs1) \<Longrightarrow>
   sample_bundles fetch k fs nrs cnt =
     (if (rms_of rs1 < nrs * 0.8 \<and> rms_of rs1 > 10) \<and> cnt < 10
      then sample_bundles fetch (k + 31) fs1 (rms_of rs1) (Suc cnt)
      else Inr (fs1, rs1))"
  by (subst sample_bundles_unfold) (simp only: sum.case prod.case)

lemma sample_bundles_Inr:
  "sample_bundles fetch k fs nrs cnt = Inr (fs', rs') \<Longrightarrow> cnt \<le> 10 \<Longrightarrow>
   \<exists>b as. 1 \<le> b \<and> b + cnt \<le> 11 \<and> length as = 31 * b \<and>
          map fetch [k..<k + 31 * b] = map Inr as \<and>
          fs' = fs @ fill_rates_of as \<and> rs' = rmses_of (drop (31 * (b - 1)) as)"
proof (induction "10 - cnt" arbitrary: k fs nrs cnt rule: less_induct)
  case less
  from less.prems obtain fs1 rs1 where bnd: "analyze_frames fetch k 31 (fs, []) = Inr (fs1, rs1)"
    by (cases "analyze_frames fetch k 31 (fs, [])") (auto simp: sample_bundles_unfold [of fetch k])
  from analyze_frames_Inr [OF bnd] obtain as1 where as1: "length as1 = 31"
    "map fetch [k..<k + 31] = map Inr as1" "fs1 = fs @ fill_rates_of as1" "rs1 = rmses_of as1"
    by auto
  define again where "again \<longleftrightarrow> (rms_of rs1 < nrs * 0.8 \<and> rms_of rs1 > 10) \<and> cnt < 10"
  have unfold: "sample_bundles fetch k fs nrs cnt =
      (if again then sample_bundles fetch (k + 31) fs1 (rms_of rs1) (Suc cnt) else Inr (fs1, rs1))"
    by (subst sample_bundles_unfold) (simp only: bnd sum.case prod.case again_def)
  show ?case
  proof (cases again)
    case False
    with less.prems unfold have "Inr (fs1, rs1) = (Inr (fs', rs') :: error + real list \<times> real list)"
      by (simp only: if_False)
    then have "fs' = fs1" "rs' = rs1" by simp_all
    with as1 less.prems(2) show ?thesis by (intro exI [of _ 1] exI [of _ as1]) simp
  next
    case True
    with less.prems unfold
    have rec: "sample_bundles fetch (k + 31) fs1 (rms_of rs1) (Suc cnt) = Inr (fs', rs')"
      by (simp only: if_True)
    have "cnt < 10" using True by (simp only: again_def)
    then have "10 - Suc cnt < 10 - cnt" "Suc cnt \<le> 10" by simp_all
    from less.hyps [OF this(1) rec this(2)]
    obtain b as where b: "1 \<le> b" "b + Suc cnt \<le> 11" "length as = 31 * b"
      "map fetch [k + 31..<k + 31 + 31 * b] = map Inr as"
      "fs' = fs1 @ fill_rates_of as" "rs' = rmses_of (drop (31 * (b - 1)) as)"
      by blast
    have "k + 31 * Suc b = (k + 31) + 31 * b" by simp
    moreover have "[k..<(k + 31) + 31 * b] = [k..<k + 31] @ [k + 31..<k + 31 + 31 * b]"
      by (rule upt_add_eq_append) simp
    ultimately have split: "[k..<k + 31 * Suc b] = [k..<k + 31] @ [k + 31..<k + 31 + 31 * b]"
      by (simp only:)
    have "map fetch [k..<k + 31 * Suc b] = map Inr (as1 @ as)"
      unfolding split using as1(2) b(4) by simp
    moreover have "drop (31 * (Suc b - 1)) (as1 @ as) = drop (31 * (b - 1)) as"
    proof -
      obtain c where c: "b = Suc c" using b(1) by (cases b) auto
      show ?thesis using as1(1) by (simp add: c)
    qed
    ultimately show ?thesis
      using b as1 by (intro exI [of _ "Suc b"] exI [of _ "as1 @ as"]) simp
  qed
qed

lemma analyze_frames_const:
  "\<forall>j<n. fetch (k + j) = Inr (Callback f (Some r)) \<Longrightarrow>
   analyze_frames fetch k n (fs, rs) = Inr (fs @ replicate n f, rs @ replicate n r)"
proof (induction n arbitrary: k fs rs)
  case 0
  then show ?case by simp
next
  case (Suc n)
  from Suc.prems have k: "fetch k = Inr (Callback f (Some r))" by (metis add.right_neutral zero_less_Suc)
  have "\<forall>j<n. fetch (Suc k + j) = Inr (Callback f (Some r))"
    using Suc.prems by (metis Suc_less_eq add_Suc_shift)
  from Suc.IH [OF this] k show ?case
    by (simp add: on_frame_def replicate_append_same)
qed

lemma rms_of_replicate: "0 < n \<Longrightarrow> 0 \<le> r \<Longrightarrow> rms_of (replicate n r) = r"
proof -
  assume n: "0 < n" and r: "0 \<le> r"
  have "sum_list (map (\<lambda>r. r * r) (replicate n r)) = real n * (r * r)"
    by (simp add: sum_list_replicate)
  then have "rms_of (replicate n r) = sqrt (r * r)" using n by (simp add: rms_of_def)
  also have "\<dots> = r" using r by simp
  finally show ?thesis .
qed

lemma median_replicate: "0 < n \<Longrightarrow> median (replicate n x) = x"
proof -
  assume n: "0 < n"
  have "sort (replicate n x) = replicate n x" by (rule sorted_sort_id) (simp add: sorted_replicate)
  moreover have "n div 2 < n" using n by simp
  ultimately show ?thesis using n by (simp add: median_def)
qed

lemma rmses_of_map: "rmses_of (map (\<lambda>k. Callback (f k) (Some (r k))) ks) = map r ks"
  by (induction ks) auto

lemma map_const: "\<forall>x\<in>set xs. g x = c \<Longrightarrow> map g xs = replicate (length xs) c"
  by (induction xs) auto

text \<open>
  C7, as amended. When \<open>get_depth_metrics\<close> returns, it has sampled \<open>b\<close> bundles of 31
  frames, with \<open>b\<close> between 1 and 11. The fill rate it returns is the element at index
  \<open>n div 2\<close> of the sorted fill rates of all sampled frames; the RMS it returns is the
  element at index \<open>m div 2\<close> of the sorted RMS values of the last bundle only (0 when
  the list is empty). When the frames of calls 0 to 31 all give fill rate 80 and RMS 2,
  it samples one bundle and returns exactly \<open>(80, 2)\<close>.
\<close>

theorem get_depth_metrics_median:
  "(get_depth_metrics fetch = Inr (mf, mr) \<longrightarrow>
      (\<exists>b as. 1 \<le> b \<and> b \<le> 11 \<and> length as = 31 * b \<and>
         map fetch [1..<1 + 31 * b] = map Inr as \<and>
         mf = median (fill_rates_of as) \<and>
         mr = median (rmses_of (drop (31 * (b - 1)) as)))) \<and>
   ((\<forall>k\<le>31. fetch k = Inr (Callback 80 (Some 2))) \<longrightarrow> get_depth_metrics fetch = Inr (80, 2))"
proof (intro conjI impI)
  assume res: "get_depth_metrics fetch = Inr (mf, mr)"
  then obtain fs rs where sb: "sample_bundles fetch 1 [] 1000 0 = Inr (fs, rs)"
    and m: "mf = median fs" "mr = median rs"
    by (auto simp: get_depth_metrics_def split: sum.splits)
  from sample_bundles_Inr [OF sb] m
  show "\<exists>b as. 1 \<le> b \<and> b \<le> 11 \<and> length as = 31 * b \<and>
         map fetch [1..<1 + 31 * b] = map Inr as \<and>
         mf = median (fill_rates_of as) \<and>
         mr = median (rmses_of (drop (31 * (b - 1)) as))"
    by auto
next
  assume all: "\<forall>k\<le>31. fetch k = Inr (Callback 80 (Some 2))"
  then have f0: "fetch 0 = Inr (Callback 80 (Some 2))" by simp
  have "\<forall>j<31. fetch (1 + j) = Inr (Callback 80 (Some 2))" using all by simp
  then have bnd: "analyze_frames fetch 1 31 ([], []) = Inr (replicate 31 80, replicate 31 2)"
    using analyze_frames_const [of 31 fetch 1 80 2 "[]" "[]"] by simp
  have rms: "rms_of (replicate 31 2) = 2" by (rule rms_of_replicate) simp_all
  have "sample_bundles fetch 1 [] 1000 0 = Inr (replicate 31 80, replicate 31 2)"
    using sample_bundles_step [OF bnd, of 1000 0] by (simp add: rms)
  then show "get_depth_metrics fetch = Inr (80, 2)"
    by (simp add: get_depth_metrics_def f0 median_replicate)
qed

theorem get_depth_metrics_median_witness:
  "get_depth_metrics (\<lambda>k. Inr (Callback 80 (Some 2))) = Inr (80, 2) \<and>
   (\<exists>b as. 1 \<le> b \<and> b \<le> 11 \<and> length as = 31 * b \<and>
      map (\<lambda>k. Inr (Callback 80 (Some 2)) :: error + analysis) [1..<1 + 31 * b] = map Inr as \<and>
      80 = median (fill_rates_of as) \<and> 2 = median (rmses_of (drop (31 * (b - 1)) as)))"
proof -
  let ?F = "\<lambda>k :: nat. Inr (Callback 80 (Some 2)) :: error + analysis"
  have r: "get_depth_metrics ?F = Inr (80, 2)"
    using get_depth_metrics_median [of ?F 80 2] by simp
  with get_depth_metrics_median [of ?F 80 2] show ?thesis by blast
qed

text \<open>
  C7 as stated fails for the RMS. Three bundles with RMS 100, then 50, then 45 are
  sampled (100 and 50 are above 10 and below 0.8 times the previous value, 45 is not
  below 0.8 times 50). The function returns 45, the median of the last bundle; the
  median of the RMS values of all 93 sampled frames is 50.
\<close>

theorem get_depth_metrics_counterexample:
  "get_depth_metrics
     (\<lambda>k. Inr (Callback 80 (Some (if k \<le> 31 then 100 else if k \<le> 62 then 50 else 45)))) =
     Inr (80, 45) \<and>
   median (rmses_of (map (\<lambda>k. Callback 80 (Some (if k \<le> 31 then 100 else if k \<le> 62 then 50 else 45)))
     [1..<94])) = 50"
proof
  let ?r = "\<lambda>k :: nat. if k \<le> 31 then 100 else if k \<le> 62 then 50 else (45 :: real)"
  let ?F = "\<lambda>k. Inr (Callback 80 (Some (?r k))) :: error + analysis"
  have b1: "analyze_frames ?F 1 31 ([], []) = Inr (replicate 31 80, replicate 31 100)"
    using analyze_frames_const [of 31 ?F 1 80 100 "[]" "[]"] by simp
  have b2: "analyze_frames ?F 32 31 (replicate 31 80, []) = Inr (replicate 62 80, replicate 31 50)"
    using analyze_frames_const [of 31 ?F 32 80 50 "replicate 31 80" "[]"]
    by (simp flip: replicate_add)
  have b3: "analyze_frames ?F 63 31 (replicate 62 80, []) = Inr (replicate 93 80, replicate 31 45)"
    using analyze_frames_const [of 31 ?F 63 80 45 "replicate 62 80" "[]"]
    by (simp flip: replicate_add)
  have r1: "rms_of (replicate 31 100) = 100" by (rule rms_of_replicate) simp_all
  have r2: "rms_of (replicate 31 50) = 50" by (rule rms_of_replicate) simp_all
  have r3: "rms_of (replicate 31 45) = 45" by (rule rms_of_replicate) simp_all
  have s3: "sample_bundles ?F 63 (replicate 62 80) 50 (Suc (Suc 0))
      = Inr (replicate 93 80, replicate 31 45)"
    using sample_bundles_step [OF b3, of 50 "Suc (Suc 0)"] by (simp add: r3)
  have s2: "sample_bundles ?F 32 (replicate 31 80) 100 (Suc 0)
      = Inr (replicate 93 80, replicate 31 45)"
    using sample_bundles_step [OF b2, of 100 "Suc 0"] s3 by (simp add: r2)
  have s1: "sample_bundles ?F 1 [] 1000 0 = Inr (replicate 93 80, replicate 31 45)"
    using sample_bundles_step [OF b1, of 1000 0] s2 by (simp add: r1)
  show "get_depth_metrics ?F = Inr (80, 45)"
    using s1 by (simp add: get_depth_metrics_def median_replicate)
next
  let ?r = "\<lambda>k :: nat. if k \<le> 31 then 100 else if k \<le> 62 then 50 else (45 :: real)"
  have split: "[1..<94] = [1..<32] @ [32..<63] @ [63..<94]"
    using upt_add_eq_append [of 1 32 31] upt_add_eq_append [of 1 63 31] by simp
  have m1: "map ?r [1..<32] = replicate (length [1..<32 :: nat]) 100"
    by (rule map_const) auto
  have m2: "map ?r [32..<63] = replicate (length [32..<63 :: nat]) 50"
    by (rule map_const) auto
  have m3: "map ?r [63..<94] = replicate (length [63..<94 :: nat]) 45"
    by (rule map_const) auto
  have "map ?r [1..<94] = replicate 31 100 @ replicate 31 50 @ replicate 31 45"
    unfolding split map_append m1 m2 m3 by (simp only: length_upt) simp
  then have all: "rmses_of (map (\<lambda>k. Callback 80 (Some (?r k))) [1..<94])
      = replicate 31 100 @ replicate 31 50 @ replicate 31 45"
    by (simp only: rmses_of_map)
  have "sort (replicate 31 100 @ replicate 31 50 @ replicate 31 (45 :: real))
      = replicate 31 45 @ replicate 31 50 @ replicate 31 100"
    by (rule properties_for_sort) (auto simp: sorted_append)
  then show "median (rmses_of (map (\<lambda>k. Callback 80 (Some (?r k))) [1..<94])) = 50"
    unfolding all by (simp add: median_def nth_append)
qed

subsection \<open>Workspace restoration\<close>

text \<open>A second call of \<^verbatim>\<open>restore_workspace\<close> changes nothing.\<close>

lemma restore_workspace_restored: "restored (restore_workspace sub sub_color s)"
  by (simp add: restore_workspace_def Let_def start_viewer_def override_options_def stop_viewer_def
      split: option.splits)

lemma restore_workspace_idem:
  "restore_workspace sub sub_color (restore_workspace sub sub_color s)
     = restore_workspace sub sub_color s"
  using restore_workspace_restored [of sub sub_color s] by (subst restore_workspace_def) simp

text \<open>
  C3. The claim fails on the emitter and thermal-compensation options. In the session
  \<open>session0\<close> both are 1. \<^verbatim>\<open>start_viewer\<close> saves 1 and sets them to 0. \<^verbatim>\<open>restore_workspace\<close>
  does not write the saved values back: the stream was running, so it calls
  \<^verbatim>\<open>start_viewer\<close> again, which overwrites the saved values with the current 0 and
  leaves both options at 0.
\<close>

theorem restore_workspace_leaves_emitter_off:
  "emitter_enabled session0 = Some 1 \<and> thermal_compensation session0 = Some 1 \<and>
   laser_status_prev (start_viewer sub0 sub0 256 144 90 session0) = 1 \<and>
   emitter_enabled (restore_workspace sub0 sub0 (start_viewer sub0 sub0 256 144 90 session0)) = Some 0 \<and>
   thermal_compensation (restore_workspace sub0 sub0 (start_viewer sub0 sub0 256 144 90 session0)) = Some 0 \<and>
   laser_status_prev (restore_workspace sub0 sub0 (start_viewer sub0 sub0 256 144 90 session0)) = 0 \<and>
   thermal_loop_prev (restore_workspace sub0 sub0 (start_viewer sub0 sub0 256 144 90 session0)) = 0"
  by (simp add: session0_def sub0_def restore_workspace_def start_viewer_def override_options_def
      stop_viewer_def Let_def)

subsection \<open>Applying a calibration table\<close>

text \<open>
  C10. \<open>apply_calib use_new\<close> passes the selected table (\<open>new_calib\<close> when \<open>use_new\<close>, else
  \<open>old_calib\<close>) to \<^verbatim>\<open>set_calibration_table\<close> exactly when that table is not empty; when
  it is empty nothing changes and no table is sent.
\<close>

theorem apply_calib_only_nonempty:
  "((if use_new then new_calib s else old_calib s) \<noteq> [] \<longrightarrow>
      apply_calib use_new s = s\<lparr>set_calibration_table_calls :=
        set_calibration_table_calls s @ [if use_new then new_calib s else old_calib s]\<rparr>) \<and>
   ((if use_new then new_calib s else old_calib s) = [] \<longrightarrow> apply_calib use_new s = s)"
  by (simp add: apply_calib_def Let_def)

theorem apply_calib_only_nonempty_witness:
  "apply_calib True \<lparr>old_calib = [1, 2], new_calib = [], set_calibration_table_calls = []\<rparr>
     = \<lparr>old_calib = [1, 2], new_calib = [], set_calibration_table_calls = []\<rparr> \<and>
   apply_calib False \<lparr>old_calib = [1, 2], new_calib = [], set_calibration_table_calls = []\<rparr>
     = \<lparr>old_calib = [1, 2], new_calib = [], set_calibration_table_calls = [[1, 2]]\<rparr>"
  using apply_calib_only_nonempty [of True "\<lparr>old_calib = [1, 2], new_calib = [], set_calibration_table_calls = []\<rparr>"]
    apply_calib_only_nonempty [of False "\<lparr>old_calib = [1, 2], new_calib = [], set_calibration_table_calls = []\<rparr>"]
  by simp

subsection \<open>Focal-length table patch\<close>

lemma length_write_bytes:
  "off + length bs \<le> length t \<Longrightarrow> length (write_bytes t off bs) = length t"
  by (simp add: write_bytes_def)

lemma drop_write_bytes:
  "off + length bs \<le> n \<Longrightarrow> off + length bs \<le> length t \<Longrightarrow> drop n (write_bytes t off bs) = drop n t"
  by (simp add: write_bytes_def)

lemma read_write_bytes:
  "off + length bs \<le> length t \<Longrightarrow> read_bytes (write_bytes t off bs) off (length bs) = bs"
  by (simp add: write_bytes_def read_bytes_def)

lemma write_read_bytes:
  "off + n \<le> length t \<Longrightarrow> write_bytes t off (read_bytes t off n) = t"
proof -
  assume a: "off + n \<le> length t"
  have "take off t @ take n (drop off t) @ drop (off + n) t = t"
    by (metis append_take_drop_id drop_drop add.commute append.assoc take_add)
  with a show ?thesis by (simp add: write_bytes_def read_bytes_def min_def)
qed

lemma read_bytes_drop:
  "hs \<le> off \<Longrightarrow> drop hs t' = drop hs t \<Longrightarrow> read_bytes t' off n = read_bytes t off n"
proof -
  assume a: "hs \<le> off" and b: "drop hs t' = drop hs t"
  have "drop off t' = drop (off - hs) (drop hs t')" using a by simp
  also have "\<dots> = drop (off - hs) (drop hs t)" using b by simp
  also have "\<dots> = drop off t" using a by simp
  finally show ?thesis by (simp add: read_bytes_def)
qed


lemma mul_float_field_one:
  "off + 4 \<le> length t \<Longrightarrow>
   bytes_of_float L (float_of_bytes L (read_bytes t off 4)) = read_bytes t off 4 \<Longrightarrow>
   mul_float_field L off 1 t = Inr t"
  by (simp add: mul_float_field_def write_read_bytes)

lemma mul_float_field_length:
  "\<forall>r. length (bytes_of_float L r) = 4 \<Longrightarrow> mul_float_field L off r t = Inr t' \<Longrightarrow>
   length t' = length t"
  by (auto simp: mul_float_field_def length_write_bytes split: if_splits)

lemma mul_float_field_returns:
  "off + 4 \<le> length t \<Longrightarrow> \<exists>t'. mul_float_field L off r t = Inr t'"
  by (simp add: mul_float_field_def)

text \<open>
  C6. Let the checksum field lie in the header and the two scale fields after it, all
  inside the table, and let the four bytes of each scale field be the bytes of the
  value they hold. Then for every \<^verbatim>\<open>corrected_ratio\<close> the patch returns a table of the
  same length whose checksum field holds the checksum of the bytes after the header
  of the table returned; and for \<^verbatim>\<open>corrected_ratio = 0\<close>, that is ratio 1, the bytes
  after the header, the two scale fields among them, are those of the input and the
  checksum field holds the checksum of the bytes after the header of the input.
\<close>

theorem calibrate_fl_patch_crc:
  assumes lenf: "\<forall>r. length (bytes_of_float L r) = 4"
    and lenc: "\<forall>w. length (bytes_of_uint32 L w) = 4"
    and hdr: "crc32_offset L + 4 \<le> header_size L"
    and xx: "header_size L \<le> x_x_offset L" "x_x_offset L + 4 \<le> length t"
    and xy: "header_size L \<le> x_y_offset L" "x_y_offset L + 4 \<le> length t"
    and rx: "bytes_of_float L (float_of_bytes L (read_bytes t (x_x_offset L) 4))
               = read_bytes t (x_x_offset L) 4"
    and ry: "bytes_of_float L (float_of_bytes L (read_bytes t (x_y_offset L) 4))
               = read_bytes t (x_y_offset L) 4"
  shows "(\<exists>t'. calibrate_fl_patch L corrected_ratio t = Inr t' \<and> length t' = length t \<and>
            read_bytes t' (crc32_offset L) 4
              = bytes_of_uint32 L (calc_crc32 L (drop (header_size L) t'))) \<and>
         (\<exists>t'. calibrate_fl_patch L 0 t = Inr t' \<and> length t' = length t \<and>
            drop (header_size L) t' = drop (header_size L) t \<and>
            read_bytes t' (x_x_offset L) 4 = read_bytes t (x_x_offset L) 4 \<and>
            read_bytes t' (x_y_offset L) 4 = read_bytes t (x_y_offset L) 4 \<and>
            read_bytes t' (crc32_offset L) 4
              = bytes_of_uint32 L (calc_crc32 L (drop (header_size L) t)))"
proof
  let ?r = "corrected_ratio / 100 + 1"
  from mul_float_field_returns [OF xx(2)] obtain t1
    where t1: "mul_float_field L (x_x_offset L) ?r t = Inr t1" by blast
  have l1: "length t1 = length t" using lenf t1 by (rule mul_float_field_length)
  then have "x_y_offset L + 4 \<le> length t1" using xy(2) by simp
  from mul_float_field_returns [OF this] obtain t2
    where t2: "mul_float_field L (x_y_offset L) ?r t1 = Inr t2" by blast
  have l2: "length t2 = length t" using mul_float_field_length [OF lenf t2] l1 by simp
  let ?crc = "bytes_of_uint32 L (calc_crc32 L (drop (header_size L) t2))"
  let ?t' = "write_bytes t2 (crc32_offset L) ?crc"
  have lc: "length ?crc = 4" using lenc by simp
  have inh: "header_size L \<le> length t2" using xx l2 by simp
  then have inc: "crc32_offset L + length ?crc \<le> length t2" using hdr lc by simp
  have res: "calibrate_fl_patch L corrected_ratio t = Inr ?t'"
    using t1 t2 inh inc lc by (simp add: calibrate_fl_patch_def Let_def)
  have body: "drop (header_size L) ?t' = drop (header_size L) t2"
    using hdr lc inc by (intro drop_write_bytes) simp_all
  have "read_bytes ?t' (crc32_offset L) (length ?crc) = ?crc"
    using inc by (rule read_write_bytes)
  then have "read_bytes ?t' (crc32_offset L) 4
      = bytes_of_uint32 L (calc_crc32 L (drop (header_size L) ?t'))"
    unfolding body lc .
  moreover have "length ?t' = length t" using length_write_bytes [OF inc] l2 by simp
  ultimately show "\<exists>t'. calibrate_fl_patch L corrected_ratio t = Inr t' \<and> length t' = length t \<and>
            read_bytes t' (crc32_offset L) 4
              = bytes_of_uint32 L (calc_crc32 L (drop (header_size L) t'))"
    using res by blast
next
  have t1: "mul_float_field L (x_x_offset L) 1 t = Inr t"
    using xx(2) rx by (rule mul_float_field_one)
  have t2: "mul_float_field L (x_y_offset L) 1 t = Inr t"
    using xy(2) ry by (rule mul_float_field_one)
  let ?crc = "bytes_of_uint32 L (calc_crc32 L (drop (header_size L) t))"
  let ?t' = "write_bytes t (crc32_offset L) ?crc"
  have lc: "length ?crc = 4" using lenc by simp
  have inh: "header_size L \<le> length t" using xx by simp
  then have inc: "crc32_offset L + length ?crc \<le> length t" using hdr lc by simp
  have res: "calibrate_fl_patch L 0 t = Inr ?t'"
    using t1 t2 inh inc lc by (simp add: calibrate_fl_patch_def Let_def)
  have body: "drop (header_size L) ?t' = drop (header_size L) t"
    using hdr lc inc by (intro drop_write_bytes) simp_all
  have "read_bytes ?t' (crc32_offset L) (length ?crc) = ?crc"
    using inc by (rule read_write_bytes)
  then have crc: "read_bytes ?t' (crc32_offset L) 4 = ?crc" unfolding lc .
  have len: "length ?t' = length t" using inc by (rule length_write_bytes)
  have fx: "read_bytes ?t' (x_x_offset L) 4 = read_bytes t (x_x_offset L) 4"
    using xx(1) body by (rule read_bytes_drop)
  have fy: "read_bytes ?t' (x_y_offset L) 4 = read_bytes t (x_y_offset L) 4"
    using xy(1) body by (rule read_bytes_drop)
  from res len body fx fy crc
  show "\<exists>t'. calibrate_fl_patch L 0 t = Inr t' \<and> length t' = length t \<and>
            drop (header_size L) t' = drop (header_size L) t \<and>
            read_bytes t' (x_x_offset L) 4 = read_bytes t (x_x_offset L) 4 \<and>
            read_bytes t' (x_y_offset L) 4 = read_bytes t (x_y_offset L) 4 \<and>
            read_bytes t' (crc32_offset L) 4
              = bytes_of_uint32 L (calc_crc32 L (drop (header_size L) t))"
    by blast
qed

theorem calibrate_fl_patch_crc_witness:
  "\<exists>t'. calibrate_fl_patch layout0 0 table0 = Inr t' \<and> length t' = 64 \<and>
        drop 16 t' = drop 16 table0 \<and>
        read_bytes t' 12 4 = bytes_of_uint32 layout0 (calc_crc32 layout0 (drop 16 table0))"
proof -
  have lenf: "\<forall>r. length (bytes_of_float layout0 r) = 4" by (simp add: layout0_def)
  have lenc: "\<forall>w. length (bytes_of_uint32 layout0 w) = 4" by (simp add: layout0_def)
  have hdr: "crc32_offset layout0 + 4 \<le> header_size layout0" by (simp add: layout0_def)
  have xx: "header_size layout0 \<le> x_x_offset layout0" "x_x_offset layout0 + 4 \<le> length table0"
    by (simp_all add: layout0_def table0_def)
  have xy: "header_size layout0 \<le> x_y_offset layout0" "x_y_offset layout0 + 4 \<le> length table0"
    by (simp_all add: layout0_def table0_def)
  have fx: "read_bytes table0 (x_x_offset layout0) 4 = [0, 0, 128, 63]"
    by (simp add: layout0_def table0_def read_bytes_def)
  have fy: "read_bytes table0 (x_y_offset layout0) 4 = [0, 0, 128, 63]"
    by (simp add: layout0_def table0_def read_bytes_def)
  have rx: "bytes_of_float layout0 (float_of_bytes layout0 (read_bytes table0 (x_x_offset layout0) 4))
               = read_bytes table0 (x_x_offset layout0) 4"
    unfolding fx by (simp add: layout0_def)
  have ry: "bytes_of_float layout0 (float_of_bytes layout0 (read_bytes table0 (x_y_offset layout0) 4))
               = read_bytes table0 (x_y_offset layout0) 4"
    unfolding fy by (simp add: layout0_def)
  have len: "length table0 = 64" by (simp add: table0_def)
  have h: "header_size layout0 = 16" "crc32_offset layout0 = 12" by (simp_all add: layout0_def)
  from calibrate_fl_patch_crc [OF lenf lenc hdr xx xy rx ry, of 0]
  show ?thesis unfolding len h by blast
qed

subsection \<open>UV-mapping solver\<close>



text \<open>
  C4. With at least four points and the distortion model the assertion asks for,
  \<open>calibrate\<close> returns; and whenever it returns, the \<^verbatim>\<open>bool\<close> it returns is true if and
  only if each of the four parameters \<open>ppx\<close>, \<open>ppy\<close>, \<open>fx\<close>, \<open>fy\<close> it hands back differs from
  the corresponding value of the colour intrinsics by strictly less than
  \<open>max_change\<close>. The two errors do not occur in the condition.
\<close>

theorem calibrate_accepts_iff:
  "(length pts \<ge> 4 \<and> model color_intrin = RS2_DISTORTION_INVERSE_BROWN_CONRADY \<longrightarrow>
      (\<exists>r. calibrate max_change deproject transform color_intrin pts prior = Inr r)) \<and>
   (calibrate max_change deproject transform color_intrin pts prior
      = Inr (accept, err_before, err_after, ppx', ppy', fx', fy') \<longrightarrow>
    accept = (\<bar>ppx color_intrin - ppx'\<bar> < max_change \<and> \<bar>ppy color_intrin - ppy'\<bar> < max_change \<and>
              \<bar>fx color_intrin - fx'\<bar> < max_change \<and> \<bar>fy color_intrin - fy'\<bar> < max_change))"
  by (cases prior) (auto simp: calibrate_def Let_def split: if_splits)

theorem calibrate_accepts_iff_witness:
  "\<exists>accept err_before err_after ppx' ppy' fx' fy'.
     calibrate 5 (\<lambda>p z. (fst p, snd p, z)) (\<lambda>p. p)
       \<lparr>ppx = 1, ppy = 1, fx = 2, fy = 2, model = RS2_DISTORTION_INVERSE_BROWN_CONRADY\<rparr>
       [\<lparr>left_x = 0, left_y = 0, left_z = 1, color_x = 1, color_y = 1\<rparr>,
        \<lparr>left_x = 1, left_y = 0, left_z = 1, color_x = 3, color_y = 1\<rparr>,
        \<lparr>left_x = 0, left_y = 1, left_z = 1, color_x = 1, color_y = 3\<rparr>,
        \<lparr>left_x = 1, left_y = 1, left_z = 1, color_x = 3, color_y = 3\<rparr>]
       (0, 0, 0, 0)
       = Inr (accept, err_before, err_after, ppx', ppy', fx', fy') \<and>
     accept = (\<bar>1 - ppx'\<bar> < 5 \<and> \<bar>1 - ppy'\<bar> < 5 \<and> \<bar>2 - fx'\<bar> < 5 \<and> \<bar>2 - fy'\<bar> < 5)"
proof -
  let ?ci = "\<lparr>ppx = 1, ppy = 1, fx = 2, fy = 2, model = RS2_DISTORTION_INVERSE_BROWN_CONRADY\<rparr>"
  let ?P = "[\<lparr>left_x = 0, left_y = 0, left_z = 1, color_x = 1, color_y = 1\<rparr>,
        \<lparr>left_x = 1, left_y = 0, left_z = 1, color_x = 3, color_y = 1\<rparr>,
        \<lparr>left_x = 0, left_y = 1, left_z = 1, color_x = 1, color_y = 3\<rparr>,
        \<lparr>left_x = 1, left_y = 1, left_z = 1, color_x = 3, color_y = 3\<rparr>]"
  let ?C = "calibrate 5 (\<lambda>p z. (fst p, snd p, z)) (\<lambda>p. p) ?ci ?P (0, 0, 0, 0)"
  have "\<exists>r. ?C = Inr r"
    using calibrate_accepts_iff [where pts = ?P and color_intrin = ?ci] by simp
  then obtain r0 where r0: "?C = Inr r0" by blast
  obtain accept err_before err_after ppx' ppy' fx' fy'
    where "r0 = (accept, err_before, err_after, ppx', ppy', fx', fy')"
    by (cases r0)
  with r0 have r: "?C = Inr (accept, err_before, err_after, ppx', ppy', fx', fy')"
    by simp
  with calibrate_accepts_iff [where pts = ?P and color_intrin = ?ci and max_change = 5
      and deproject = "\<lambda>p z. (fst p, snd p, z)" and transform = "\<lambda>p. p" and prior = "(0, 0, 0, 0)"
      and accept = accept and err_before = err_before and err_after = err_after
      and ppx' = ppx' and ppy' = ppy' and fx' = fx' and fy' = fy']
  have "accept = (\<bar>1 - ppx'\<bar> < 5 \<and> \<bar>1 - ppy'\<bar> < 5 \<and> \<bar>2 - fx'\<bar> < 5 \<and> \<bar>2 - fy'\<bar> < 5)"
    by simp
  with r show ?thesis by blast
qed



end
